theory Spec2Isabelle
  imports Complex_Main "HOL-Library.Multiset"
begin

section \<open>The dataset: tables of the backing store\<close>

text \<open>
  The store is an in-memory SQL database with three tables, \<open>OIer\<close>, \<open>Record\<close> and
  \<open>Contest\<close>. A row of each table is a record; a JavaScript number read from a
  \<open>REAL\<close> column is modelled by a rational (finite doubles are compared exactly as
  the rationals they denote), the integer columns by \<open>int\<close>.
\<close>

record oier =
  uid :: int
  name :: string
  gender :: int
  enroll_middle :: int
  oierdb_score :: rat
  ccf_score :: rat
  ccf_level :: int

record contest_row =
  c_id :: int
  c_year :: int
  c_type :: string

record record_row =
  r_oier_uid :: int
  r_contest_id :: int
  r_score :: rat
  r_rank :: int
  r_province :: string
  r_level :: string

record database =
  OIer_rows :: "oier list"
  Record_rows :: "record_row list"
  Contest_rows :: "contest_row list"

section \<open>The query configuration\<close>

text \<open>
  A bound pair is a two-element array whose sides are a number or \<open>null\<close>; a field of
  the configuration object may be missing altogether (\<open>None\<close>).
\<close>

type_synonym 'a bound_pair = "('a option \<times> 'a option) option"

record record_constraint =
  year_range :: "rat bound_pair"
  rank_range :: "rat bound_pair"
  score_range :: "rat bound_pair"
  province :: "string list option"
  contest_type :: "string list option"
  level_range :: "string list option"

record config =
  enroll_year_range :: "int bound_pair"
  grade_range :: "int bound_pair"
  records :: "record_constraint list option"

section \<open>Conditions of a WHERE clause\<close>

text \<open>
  The source builds a WHERE clause as the strings of its conditions joined by \<open>AND\<close>,
  with \<open>?\<close> placeholders, and a parallel array of the values bound to them. A
  condition of the model carries the values bound to its own placeholders, so the
  pair (clause, values) is the list of conditions in the order they are pushed.
\<close>

datatype oier_cond =
    Enroll_ge int    \<comment> \<open>\<open>enroll_middle >= ?\<close>\<close>
  | Enroll_le int    \<comment> \<open>\<open>enroll_middle <= ?\<close>\<close>

datatype num_column = Col_c_year | Col_r_score | Col_r_rank

datatype list_column = Col_r_province | Col_r_level | Col_c_type

datatype cond =
    Always                             \<comment> \<open>\<open>1=1\<close>\<close>
  | Ge num_column rat                  \<comment> \<open>\<open>column >= ?\<close>\<close>
  | Le num_column rat                  \<comment> \<open>\<open>column <= ?\<close>\<close>
  | In_list list_column "string list"  \<comment> \<open>\<open>column IN (?,...,?)\<close>\<close>
  | Uid_in "int list"                  \<comment> \<open>\<open>r.oier_uid IN (?,...,?)\<close>\<close>

fun eval_oier_cond :: "oier \<Rightarrow> oier_cond \<Rightarrow> bool" where
  "eval_oier_cond oi (Enroll_ge v) = (v \<le> enroll_middle oi)"
| "eval_oier_cond oi (Enroll_le v) = (enroll_middle oi \<le> v)"

fun num_value :: "num_column \<Rightarrow> record_row \<times> contest_row \<Rightarrow> rat" where
  "num_value Col_c_year (r, c) = of_int (c_year c)"
| "num_value Col_r_score (r, c) = r_score r"
| "num_value Col_r_rank (r, c) = of_int (r_rank r)"

fun list_value :: "list_column \<Rightarrow> record_row \<times> contest_row \<Rightarrow> string" where
  "list_value Col_r_province (r, c) = r_province r"
| "list_value Col_r_level (r, c) = r_level r"
| "list_value Col_c_type (r, c) = c_type c"

fun eval_cond :: "record_row \<times> contest_row \<Rightarrow> cond \<Rightarrow> bool" where
  "eval_cond rc Always = True"
| "eval_cond rc (Ge col v) = (v \<le> num_value col rc)"
| "eval_cond rc (Le col v) = (num_value col rc \<le> v)"
| "eval_cond rc (In_list col vs) = (list_value col rc \<in> set vs)"
| "eval_cond rc (Uid_in us) = (r_oier_uid (fst rc) \<in> set us)"

section \<open>The statements the engine runs\<close>

text \<open>
  The store is taken to execute every statement of these four forms that it is given;
  limits of the engine, such as a maximum number of bound parameters, are not
  modelled.
\<close>

text \<open>\<open>Record r JOIN Contest c ON r.contest_id = c.id\<close>\<close>

definition joined_rows :: "database \<Rightarrow> (record_row \<times> contest_row) list" where
  "joined_rows d =
     concat (map (\<lambda>r. map (Pair r) (filter (\<lambda>c. r_contest_id r = c_id c) (Contest_rows d)))
                 (Record_rows d))"

text \<open>\<open>SELECT uid FROM OIer WHERE ...\<close>\<close>

definition select_oier_uids :: "database \<Rightarrow> oier_cond list \<Rightarrow> int list" where
  "select_oier_uids d conds =
     map uid (filter (\<lambda>oi. list_all (eval_oier_cond oi) conds) (OIer_rows d))"

text \<open>\<open>SELECT DISTINCT r.oier_uid FROM Record r JOIN Contest c ON ... WHERE ...\<close>\<close>

definition select_record_uids :: "database \<Rightarrow> cond list \<Rightarrow> int list" where
  "select_record_uids d conds =
     remdups (map (\<lambda>rc. r_oier_uid (fst rc))
                  (filter (\<lambda>rc. list_all (eval_cond rc) conds) (joined_rows d)))"

text \<open>
  \<open>ORDER BY oierdb_score DESC\<close>. The order of rows with equal scores is not fixed by
  SQL; the model keeps them in table order (a stable sort).
\<close>

definition order_by_score_desc :: "oier list \<Rightarrow> oier list" where
  "order_by_score_desc rows = sort_key (\<lambda>oi. - oierdb_score oi) rows"

text \<open>\<open>SELECT * FROM OIer ORDER BY oierdb_score DESC\<close>\<close>

definition select_all_oiers :: "database \<Rightarrow> oier list" where
  "select_all_oiers d = order_by_score_desc (OIer_rows d)"

text \<open>\<open>SELECT * FROM OIer WHERE uid IN (?,...,?) ORDER BY oierdb_score DESC\<close>\<close>

definition select_oiers_in :: "database \<Rightarrow> int list \<Rightarrow> oier list" where
  "select_oiers_in d us =
     order_by_score_desc (filter (\<lambda>oi. uid oi \<in> set us) (OIer_rows d))"

section \<open>The store handle and exceptions\<close>

text \<open>
  The handle \<open>db\<close> is a global that is undefined until the dataset is loaded
  (\<open>None\<close>). Calling a method of an undefined value throws a \<open>TypeError\<close>, whose
  message is the engine's; the store throws an \<open>Error\<close> of its own when a statement
  fails.
\<close>

datatype js_exception = TypeError string | StoreError string

fun message :: "js_exception \<Rightarrow> string" where
  "message (TypeError m) = m"
| "message (StoreError m) = m"

definition undefined_db_message :: string where
  "undefined_db_message = ''db is undefined''"

definition null_size_message :: string where
  "null_size_message = ''candidateUids is null''"

definition undefined_toFixed_message :: string where
  "undefined_toFixed_message = ''oier.oierdb_score is undefined''"

definition with_db :: "database option \<Rightarrow> (database \<Rightarrow> 'a) \<Rightarrow> js_exception + 'a" where
  "with_db db f =
     (case db of None \<Rightarrow> Inl (TypeError undefined_db_message) | Some d \<Rightarrow> Inr (f d))"

text \<open>
  Every statement the engine sends to an initialised store is recorded, in order, so
  that claims about the number and the scope of lookups can be stated.
\<close>

datatype lookup =
    Q_oier_uids "oier_cond list"
  | Q_record_uids "cond list"
  | Q_all_oiers
  | Q_oiers_in "int list"

section \<open>JavaScript sets\<close>

text \<open>
  A \<open>Set\<close> keeps its elements in insertion order and ignores an element already
  present; \<open>size\<close> is the length of the list.
\<close>

definition set_add :: "'a list \<Rightarrow> 'a \<Rightarrow> 'a list" where
  "set_add s x = (if x \<in> set s then s else s @ [x])"

definition new_Set :: "'a list \<Rightarrow> 'a list" where
  "new_Set xs = foldl set_add [] xs"

section \<open>buildWhereClauseAndValues\<close>

definition range_conditions :: "num_column \<Rightarrow> rat bound_pair \<Rightarrow> cond list" where
  "range_conditions column field =
     (case field of
        None \<Rightarrow> []
      | Some (minV, maxV) \<Rightarrow>
          if minV \<noteq> None \<or> maxV \<noteq> None then
            (case minV of None \<Rightarrow> [] | Some v \<Rightarrow> [Ge column v]) @
            (case maxV of None \<Rightarrow> [] | Some v \<Rightarrow> [Le column v])
          else [])"

definition list_conditions :: "list_column \<Rightarrow> string list option \<Rightarrow> cond list" where
  "list_conditions column field =
     (case field of
        None \<Rightarrow> []
      | Some vs \<Rightarrow> if length vs > 0 then [In_list column vs] else [])"

text \<open>The array \<open>conditions\<close> after the two loops (lines 246-259).\<close>

definition where_conditions :: "record_constraint \<Rightarrow> cond list" where
  "where_conditions params =
     range_conditions Col_c_year (year_range params) @
     range_conditions Col_r_score (score_range params) @
     range_conditions Col_r_rank (rank_range params) @
     list_conditions Col_r_province (province params) @
     list_conditions Col_r_level (level_range params) @
     list_conditions Col_c_type (contest_type params)"

definition buildWhereClauseAndValues :: "record_constraint \<Rightarrow> cond list" where
  "buildWhereClauseAndValues params =
     (let conditions = where_conditions params
      in if length conditions > 0 then conditions else [Always])"

section \<open>findOiers\<close>

definition ENUMERATE_THRESHOLD :: nat where
  "ENUMERATE_THRESHOLD = 20"

text \<open>Lines 173-184: the conditions on the \<open>OIer\<close> table; \<open>currentYear\<close> is the calendar year.\<close>

definition enroll_conditions :: "int bound_pair \<Rightarrow> oier_cond list" where
  "enroll_conditions field =
     (case field of
        None \<Rightarrow> []
      | Some (minYr, maxYr) \<Rightarrow>
          if minYr \<noteq> None \<or> maxYr \<noteq> None then
            (case minYr of None \<Rightarrow> [] | Some v \<Rightarrow> [Enroll_ge v]) @
            (case maxYr of None \<Rightarrow> [] | Some v \<Rightarrow> [Enroll_le v])
          else [])"

definition grade_conditions :: "int \<Rightarrow> int bound_pair \<Rightarrow> oier_cond list" where
  "grade_conditions currentYear field =
     (case field of
        None \<Rightarrow> []
      | Some (minGrade, maxGrade) \<Rightarrow>
          if minGrade \<noteq> None \<or> maxGrade \<noteq> None then
            (case maxGrade of None \<Rightarrow> [] | Some g \<Rightarrow> [Enroll_ge (currentYear - g + 7)]) @
            (case minGrade of None \<Rightarrow> [] | Some g \<Rightarrow> [Enroll_le (currentYear - g + 7)])
          else [])"

definition oierConditions :: "int \<Rightarrow> config \<Rightarrow> oier_cond list" where
  "oierConditions currentYear cfg =
     enroll_conditions (enroll_year_range cfg) @ grade_conditions currentYear (grade_range cfg)"

text \<open>The state of the narrowing loop, with the lookups issued so far.\<close>

record eval_state =
  candidateUids :: "int list option"
  enumerationMode :: bool
  lookups :: "lookup list"

text \<open>Lines 186-193: the lookup on the \<open>OIer\<close> table, when there is a condition.\<close>

definition base_filter :: "database option \<Rightarrow> oier_cond list \<Rightarrow> js_exception + eval_state" where
  "base_filter db conds =
     (if length conds > 0 then
        (case with_db db (\<lambda>d. select_oier_uids d conds) of
           Inl e \<Rightarrow> Inl e
         | Inr rows \<Rightarrow>
             Inr \<lparr>candidateUids = Some (new_Set rows), enumerationMode = False,
                  lookups = [Q_oier_uids conds]\<rparr>)
      else Inr \<lparr>candidateUids = None, enumerationMode = False, lookups = []\<rparr>)"

text \<open>Line 196: \<open>candidateUids && candidateUids.size < ENUMERATE_THRESHOLD\<close>.\<close>

definition initial_mode :: "int list option \<Rightarrow> bool" where
  "initial_mode cands =
     (case cands of None \<Rightarrow> False | Some cs \<Rightarrow> length cs < ENUMERATE_THRESHOLD)"

text \<open>
  Lines 199-222: the body of the loop for one constraint. Reading \<open>size\<close> of a null
  candidate set throws.
\<close>

definition final_where :: "eval_state \<Rightarrow> cond list \<Rightarrow> js_exception + cond list" where
  "final_where s whereClause =
     (if enumerationMode s then
        (case candidateUids s of
           None \<Rightarrow> Inl (TypeError null_size_message)
         | Some cs \<Rightarrow> Inr (if length cs > 0 then whereClause @ [Uid_in cs] else whereClause))
      else Inr whereClause)"

definition narrow_step :: "database option \<Rightarrow> eval_state \<Rightarrow> record_constraint \<Rightarrow> js_exception + eval_state" where
  "narrow_step db s constraint =
     (let whereClause = buildWhereClauseAndValues constraint in
      case final_where s whereClause of
        Inl e \<Rightarrow> Inl e
      | Inr finalWhere \<Rightarrow>
          (case with_db db (\<lambda>d. select_record_uids d finalWhere) of
             Inl e \<Rightarrow> Inl e
           | Inr rows \<Rightarrow>
               let uidsForThisConstraint = new_Set rows;
                   cands = (case candidateUids s of
                              None \<Rightarrow> uidsForThisConstraint
                            | Some cs \<Rightarrow> new_Set (filter (\<lambda>u. u \<in> set uidsForThisConstraint) cs));
                   mode = (if \<not> enumerationMode s \<and> length cands < ENUMERATE_THRESHOLD
                           then True else enumerationMode s)
               in Inr \<lparr>candidateUids = Some cands, enumerationMode = mode,
                       lookups = lookups s @ [Q_record_uids finalWhere]\<rparr>))"

text \<open>Lines 198-224: the loop, left by \<open>break\<close> when the candidate set is empty.\<close>

fun narrow :: "database option \<Rightarrow> eval_state \<Rightarrow> record_constraint list \<Rightarrow> js_exception + eval_state" where
  "narrow db s [] = Inr s"
| "narrow db s (constraint # rest) =
     (case narrow_step db s constraint of
        Inl e \<Rightarrow> Inl e
      | Inr s' \<Rightarrow>
          (case candidateUids s' of
             None \<Rightarrow> Inl (TypeError null_size_message)
           | Some cs \<Rightarrow> if length cs = 0 then Inr s' else narrow db s' rest))"

text \<open>
  Lines 226-238. The rows of the unconstrained query come from \<open>db.exec\<close> as arrays
  of values, the rows of the query by identifiers from \<open>getAsObject\<close> as objects.
\<close>

datatype result_row = Row_values oier | Row_object oier

fun row_data :: "result_row \<Rightarrow> oier" where
  "row_data (Row_values oi) = oi"
| "row_data (Row_object oi) = oi"

definition fetch_final ::
  "database option \<Rightarrow> oier_cond list \<Rightarrow> record_constraint list \<Rightarrow> eval_state
     \<Rightarrow> js_exception + (result_row list \<times> eval_state)" where
  "fetch_final db conds recordConstraints s =
     (if candidateUids s = None \<and> length conds = 0 \<and> length recordConstraints = 0 then
        (case with_db db select_all_oiers of
           Inl e \<Rightarrow> Inl e
         | Inr rows \<Rightarrow> Inr (map Row_values rows, s\<lparr>lookups := lookups s @ [Q_all_oiers]\<rparr>))
      else
        (case candidateUids s of
           None \<Rightarrow> Inr ([], s)
         | Some cs \<Rightarrow>
             if length cs = 0 then Inr ([], s)
             else
               (case with_db db (\<lambda>d. select_oiers_in d cs) of
                  Inl e \<Rightarrow> Inl e
                | Inr rows \<Rightarrow>
                    Inr (map Row_object rows, s\<lparr>lookups := lookups s @ [Q_oiers_in cs]\<rparr>))))"

text \<open>Line 197: \<open>config.records || []\<close>.\<close>

definition recordConstraints :: "config \<Rightarrow> record_constraint list" where
  "recordConstraints cfg = (case records cfg of None \<Rightarrow> [] | Some rs \<Rightarrow> rs)"

text \<open>
  The whole function, returning with the rows the final state of the loop (the final
  candidate set and the lookups issued); \<open>findOiers\<close> is its first component.
\<close>

definition findOiers_run ::
  "database option \<Rightarrow> int \<Rightarrow> config \<Rightarrow> js_exception + (result_row list \<times> eval_state)" where
  "findOiers_run db currentYear cfg =
     (let conds = oierConditions currentYear cfg in
      case base_filter db conds of
        Inl e \<Rightarrow> Inl e
      | Inr s0 \<Rightarrow>
          (case narrow db (s0\<lparr>enumerationMode := initial_mode (candidateUids s0)\<rparr>)
                       (recordConstraints cfg) of
             Inl e \<Rightarrow> Inl e
           | Inr s \<Rightarrow> fetch_final db conds (recordConstraints cfg) s))"

definition findOiers :: "database option \<Rightarrow> int \<Rightarrow> config \<Rightarrow> js_exception + result_row list" where
  "findOiers db currentYear cfg = map_sum id fst (findOiers_run db currentYear cfg)"

section \<open>executeQuery and displayResults\<close>

text \<open>
  Lines 268-273: an entry of the configuration is shown when it is truthy and, if it is
  an array, non-empty with an element that is not null.
\<close>

definition clean_pair :: "'a bound_pair \<Rightarrow> 'a bound_pair" where
  "clean_pair field =
     (case field of
        None \<Rightarrow> None
      | Some (lo, hi) \<Rightarrow> if lo \<noteq> None \<or> hi \<noteq> None then Some (lo, hi) else None)"

definition cleanConfig :: "config \<Rightarrow> config" where
  "cleanConfig cfg =
     \<lparr>enroll_year_range = clean_pair (enroll_year_range cfg),
      grade_range = clean_pair (grade_range cfg),
      records = (case records cfg of
                   None \<Rightarrow> None
                 | Some rs \<Rightarrow> if length rs > 0 then Some rs else None)\<rparr>"

text \<open>
  What reaches the page: an error message, or the rows and the configuration shown
  with them (the markup itself is not modelled).
\<close>

datatype display = DisplayError string | DisplayResults "oier list" config

text \<open>
  Lines 277-292: a table row reads the fields of a result row by name and calls
  \<open>toFixed\<close> on \<open>oierdb_score\<close>; on an array of values the field is undefined and
  the call throws.
\<close>

fun table_row :: "result_row \<Rightarrow> js_exception + oier" where
  "table_row (Row_object oi) = Inr oi"
| "table_row (Row_values oi) = Inl (TypeError undefined_toFixed_message)"

fun table_rows :: "result_row list \<Rightarrow> js_exception + oier list" where
  "table_rows [] = Inr []"
| "table_rows (x # xs) =
     (case table_row x of
        Inl e \<Rightarrow> Inl e
      | Inr oi \<Rightarrow> (case table_rows xs of Inl e \<Rightarrow> Inl e | Inr os \<Rightarrow> Inr (oi # os)))"

definition displayResults :: "result_row list \<Rightarrow> config \<Rightarrow> js_exception + display" where
  "displayResults oiers cfg =
     (let clean = cleanConfig cfg in
      case table_rows oiers of
        Inl e \<Rightarrow> Inl e
      | Inr rows \<Rightarrow> Inr (DisplayResults rows clean))"

text \<open>Lines 165-168: the handler of \<open>executeQuery\<close>.\<close>

definition catch_handler :: "js_exception \<Rightarrow> display" where
  "catch_handler e = DisplayError (''Query execution failed: '' @ message e)"

definition executeQuery :: "database option \<Rightarrow> int \<Rightarrow> config option \<Rightarrow> display" where
  "executeQuery db currentYear config_opt =
     (case config_opt of
        None \<Rightarrow> DisplayError ''Invalid or empty configuration.''
      | Some cfg \<Rightarrow>
          (case findOiers db currentYear cfg of
             Inl e \<Rightarrow> catch_handler e
           | Inr results \<Rightarrow>
               (case displayResults results cfg of
                  Inl e \<Rightarrow> catch_handler e
                | Inr shown \<Rightarrow> shown)))"

section \<open>The specification's reading of the constraints\<close>

text \<open>
  A bound pair applies each side on its own, inclusively; an absent side does not
  restrict. A set filter that is absent or empty does not restrict.
\<close>

definition in_bounds :: "('a::linorder) bound_pair \<Rightarrow> 'a \<Rightarrow> bool" where
  "in_bounds b x =
     (case b of
        None \<Rightarrow> True
      | Some (lo, hi) \<Rightarrow>
          (case lo of None \<Rightarrow> True | Some l \<Rightarrow> l \<le> x) \<and>
          (case hi of None \<Rightarrow> True | Some h \<Rightarrow> x \<le> h))"

definition in_set_filter :: "string list option \<Rightarrow> string \<Rightarrow> bool" where
  "in_set_filter f x = (case f of None \<Rightarrow> True | Some vs \<Rightarrow> vs = [] \<or> x \<in> set vs)"

definition no_bounds :: "'a bound_pair \<Rightarrow> bool" where
  "no_bounds b = (b = None \<or> b = Some (None, None))"

definition no_filter :: "string list option \<Rightarrow> bool" where
  "no_filter f = (f = None \<or> f = Some [])"

definition constraint_matches :: "record_constraint \<Rightarrow> record_row \<times> contest_row \<Rightarrow> bool" where
  "constraint_matches p row =
     (in_bounds (year_range p) (num_value Col_c_year row) \<and>
      in_bounds (score_range p) (num_value Col_r_score row) \<and>
      in_bounds (rank_range p) (num_value Col_r_rank row) \<and>
      in_set_filter (province p) (list_value Col_r_province row) \<and>
      in_set_filter (level_range p) (list_value Col_r_level row) \<and>
      in_set_filter (contest_type p) (list_value Col_c_type row))"

text \<open>
  The enrollment-year bound a grade range stands for in the year \<open>Y\<close>:
  \<open>min_enrollment = Y - max_grade + 7\<close> and \<open>max_enrollment = Y - min_grade + 7\<close>.
\<close>

definition grade_bounds :: "int \<Rightarrow> int bound_pair \<Rightarrow> int bound_pair" where
  "grade_bounds Y g =
     (case g of
        None \<Rightarrow> None
      | Some (min_grade, max_grade) \<Rightarrow>
          Some (map_option (\<lambda>m. Y - m + 7) max_grade, map_option (\<lambda>m. Y - m + 7) min_grade))"

text \<open>The identifiers one record constraint matches on its own, over the whole join.\<close>

definition matched :: "database \<Rightarrow> record_constraint \<Rightarrow> int set" where
  "matched d p = set (select_record_uids d (buildWhereClauseAndValues p))"

text \<open>The identifiers the base filter leaves: all of them when there is no condition.\<close>

definition base_set :: "database \<Rightarrow> oier_cond list \<Rightarrow> int set" where
  "base_set d conds = (if conds = [] then UNIV else set (select_oier_uids d conds))"



text \<open>
  The identifiers that have a row of the join satisfying a predicate, and the
  identifiers within the enrollment bounds of a configuration (all of them when no
  bound has a present side).
\<close>

definition uids_where :: "database \<Rightarrow> (record_row \<times> contest_row \<Rightarrow> bool) \<Rightarrow> int set" where
  "uids_where d P = (\<lambda>rc. r_oier_uid (fst rc)) ` {rc \<in> set (joined_rows d). P rc}"

definition enrollees_within :: "database \<Rightarrow> int \<Rightarrow> config \<Rightarrow> int set" where
  "enrollees_within d Y cfg =
     (if no_bounds (enroll_year_range cfg) \<and> no_bounds (grade_range cfg) then UNIV
      else uid ` {oi \<in> set (OIer_rows d).
                   in_bounds (enroll_year_range cfg) (enroll_middle oi) \<and>
                   in_bounds (grade_bounds Y (grade_range cfg)) (enroll_middle oi)})"

text \<open>The candidate set of a state as a set: null stands for every identifier.\<close>

definition candidate_set :: "eval_state \<Rightarrow> int set" where
  "candidate_set s = (case candidateUids s of None \<Rightarrow> UNIV | Some cs \<Rightarrow> set cs)"

section \<open>A small dataset\<close>

definition example_db :: database where
  "example_db =
     \<lparr>OIer_rows =
        [\<lparr>uid = 1, name = ''a'', gender = 1, enroll_middle = 2020, oierdb_score = 90,
          ccf_score = 10, ccf_level = 5\<rparr>,
         \<lparr>uid = 2, name = ''b'', gender = -1, enroll_middle = 2021, oierdb_score = 80,
          ccf_score = 20, ccf_level = 6\<rparr>],
      Record_rows =
        [\<lparr>r_oier_uid = 1, r_contest_id = 1, r_score = 100, r_rank = 1,
          r_province = ''BJ'', r_level = ''gold''\<rparr>,
         \<lparr>r_oier_uid = 2, r_contest_id = 1, r_score = 60, r_rank = 7,
          r_province = ''SH'', r_level = ''silver''\<rparr>,
         \<lparr>r_oier_uid = 2, r_contest_id = 2, r_score = 95, r_rank = 2,
          r_province = ''SH'', r_level = ''gold''\<rparr>],
      Contest_rows =
        [\<lparr>c_id = 1, c_year = 2022, c_type = ''NOIP''\<rparr>,
         \<lparr>c_id = 2, c_year = 2023, c_type = ''NOI''\<rparr>]\<rparr>"

definition no_constraint :: record_constraint where
  "no_constraint =
     \<lparr>year_range = None, rank_range = None, score_range = None,
      province = None, contest_type = None, level_range = None\<rparr>"

definition gold_constraint :: record_constraint where
  "gold_constraint = no_constraint\<lparr>level_range := Some [''gold'']\<rparr>"

definition sh_constraint :: record_constraint where
  "sh_constraint = no_constraint\<lparr>province := Some [''SH'']\<rparr>"


definition since_2023_constraint :: record_constraint where
  "since_2023_constraint = no_constraint\<lparr>year_range := Some (Some 2023, None)\<rparr>"

definition empty_config :: config where
  "empty_config = \<lparr>enroll_year_range = None, grade_range = None, records = None\<rparr>"

definition grade_config :: config where
  "grade_config = empty_config\<lparr>grade_range := Some (Some 10, Some 11)\<rparr>"




section \<open>JavaScript sets and the store handle\<close>

lemma set_foldl_set_add: "set (foldl set_add acc xs) = set acc \<union> set xs"
  by (induction xs arbitrary: acc) (auto simp: set_add_def)

lemma set_new_Set [simp]: "set (new_Set xs) = set xs"
  by (simp add: new_Set_def set_foldl_set_add)

lemma distinct_foldl_set_add: "distinct acc \<Longrightarrow> distinct (foldl set_add acc xs)"
  by (induction xs arbitrary: acc) (auto simp: set_add_def)

lemma distinct_new_Set [simp]: "distinct (new_Set xs)"
  by (simp add: new_Set_def distinct_foldl_set_add)

lemma new_Set_eq_Nil [simp]: "(new_Set xs = []) = (xs = [])"
  by (metis set_new_Set set_empty)

lemma with_db_Some [simp]: "with_db (Some d) f = Inr (f d)"
  by (simp add: with_db_def)

lemma with_db_None [simp]: "with_db None f = Inl (TypeError undefined_db_message)"
  by (simp add: with_db_def)

section \<open>The predicate of one record constraint\<close>

lemma eval_range_conditions:
  "list_all (eval_cond row) (range_conditions col b) = in_bounds b (num_value col row)"
  by (auto simp: range_conditions_def in_bounds_def split: option.splits)

lemma eval_list_conditions:
  "list_all (eval_cond row) (list_conditions col f) = in_set_filter f (list_value col row)"
  by (auto simp: list_conditions_def in_set_filter_def split: option.splits)

lemma buildWhere_where_conditions:
  "buildWhereClauseAndValues p = (if where_conditions p = [] then [Always] else where_conditions p)"
  by (simp add: buildWhereClauseAndValues_def Let_def)

lemma eval_where_conditions:
  "list_all (eval_cond row) (where_conditions p) = constraint_matches p row"
  by (simp add: where_conditions_def constraint_matches_def
        eval_range_conditions eval_list_conditions)

lemma eval_buildWhere:
  "list_all (eval_cond row) (buildWhereClauseAndValues p) = constraint_matches p row"
proof (cases "where_conditions p = []")
  case True
  then have "list_all (eval_cond row) (where_conditions p)" by simp
  then have "constraint_matches p row" by (simp add: eval_where_conditions)
  with True show ?thesis by (simp add: buildWhere_where_conditions)
next
  case False
  then show ?thesis by (simp add: buildWhere_where_conditions eval_where_conditions)
qed

lemma range_conditions_Some:
  "range_conditions col (Some (lo, hi)) =
     (case lo of None \<Rightarrow> [] | Some v \<Rightarrow> [Ge col v]) @ (case hi of None \<Rightarrow> [] | Some v \<Rightarrow> [Le col v])"
  by (auto simp: range_conditions_def split: option.splits)

lemma range_conditions_Nil: "(range_conditions col b = []) = no_bounds b"
  by (auto simp: range_conditions_def no_bounds_def split: option.splits)

lemma list_conditions_Nil: "(list_conditions col f = []) = no_filter f"
  by (auto simp: list_conditions_def no_filter_def split: option.splits)

lemma where_conditions_Nil:
  "(where_conditions p = []) =
     (no_bounds (year_range p) \<and> no_bounds (score_range p) \<and> no_bounds (rank_range p) \<and>
      no_filter (province p) \<and> no_filter (level_range p) \<and> no_filter (contest_type p))"
  by (simp add: where_conditions_def range_conditions_Nil list_conditions_Nil)

lemma list_conditions_cases:
  "list_conditions col f = (case f of None \<Rightarrow> [] | Some vs \<Rightarrow> if vs = [] then [] else [In_list col vs])"
  by (simp add: list_conditions_def split: option.splits)

text \<open>
  C7. The predicate compiled from one record constraint is the conjunction of the
  constraint's conditions: a row of the join satisfies it exactly when each numeric
  field (year, score, rank) is within the present sides of its bound pair, inclusively,
  and each set field (province, level, contest type) that is non-empty contains the
  row's value. A bound pair gives a \<open>>=\<close> condition for a present lower side and a
  \<open><=\<close> condition for a present upper side, a set field gives one membership
  condition exactly when it is non-empty, and the predicate is the tautology exactly
  when no field is present or non-empty.
\<close>

theorem buildWhereClauseAndValues_predicate:
  "(\<forall>row. list_all (eval_cond row) (buildWhereClauseAndValues p) = constraint_matches p row) \<and>
   range_conditions col None = [] \<and>
   range_conditions col (Some (lo, hi)) =
     (case lo of None \<Rightarrow> [] | Some v \<Rightarrow> [Ge col v]) @ (case hi of None \<Rightarrow> [] | Some v \<Rightarrow> [Le col v]) \<and>
   list_conditions lcol f =
     (case f of None \<Rightarrow> [] | Some vs \<Rightarrow> if vs = [] then [] else [In_list lcol vs]) \<and>
   (buildWhereClauseAndValues p = [Always]) =
     (no_bounds (year_range p) \<and> no_bounds (score_range p) \<and> no_bounds (rank_range p) \<and>
      no_filter (province p) \<and> no_filter (level_range p) \<and> no_filter (contest_type p)) \<and>
   (buildWhereClauseAndValues p \<noteq> [Always] \<longrightarrow>
      buildWhereClauseAndValues p =
        range_conditions Col_c_year (year_range p) @
        range_conditions Col_r_score (score_range p) @
        range_conditions Col_r_rank (rank_range p) @
        list_conditions Col_r_province (province p) @
        list_conditions Col_r_level (level_range p) @
        list_conditions Col_c_type (contest_type p))"
proof -
  have a: "\<forall>row. list_all (eval_cond row) (buildWhereClauseAndValues p) = constraint_matches p row"
    by (simp add: eval_buildWhere)
  have b: "range_conditions col None = []"
    by (simp add: range_conditions_def)
  have "Always \<notin> set (where_conditions p)"
    by (auto simp: where_conditions_def range_conditions_def list_conditions_def
          split: option.splits if_splits)
  then have ne: "where_conditions p \<noteq> [Always]"
    by (metis list.set_intros(1))
  have c: "(buildWhereClauseAndValues p = [Always]) = (where_conditions p = [])"
    using ne by (simp add: buildWhere_where_conditions)
  have d: "buildWhereClauseAndValues p \<noteq> [Always] \<longrightarrow>
             buildWhereClauseAndValues p = where_conditions p"
    by (simp add: buildWhere_where_conditions)
  note c' = c[unfolded where_conditions_Nil] and d' = d[unfolded where_conditions_def]
  show ?thesis
    by (intro conjI) (rule a b c' d' range_conditions_Some list_conditions_cases)+
qed

theorem buildWhereClauseAndValues_predicate_witness:
  "buildWhereClauseAndValues since_2023_constraint \<noteq> [Always] \<and>
   buildWhereClauseAndValues since_2023_constraint = [Ge Col_c_year 2023] \<and>
   buildWhereClauseAndValues no_constraint = [Always]"
proof -
  have h: "buildWhereClauseAndValues since_2023_constraint \<noteq> [Always]"
    by (simp add: buildWhereClauseAndValues_def where_conditions_def range_conditions_def
          list_conditions_def since_2023_constraint_def no_constraint_def)
  have n: "buildWhereClauseAndValues no_constraint = [Always]"
    using buildWhereClauseAndValues_predicate[of no_constraint]
    by (simp add: no_constraint_def no_bounds_def no_filter_def)
  show ?thesis
    using h n buildWhereClauseAndValues_predicate[of since_2023_constraint]
    by (simp add: range_conditions_def list_conditions_def since_2023_constraint_def
          no_constraint_def)
qed

section \<open>An empty set filter\<close>

lemma narrow_step_cong:
  "buildWhereClauseAndValues p = buildWhereClauseAndValues p' \<Longrightarrow>
     narrow_step db s p = narrow_step db s p'"
  by (simp add: narrow_step_def)

lemma narrow_cong:
  "map buildWhereClauseAndValues ps = map buildWhereClauseAndValues ps' \<Longrightarrow>
     narrow db s ps = narrow db s ps'"
proof (induction ps arbitrary: ps' s)
  case Nil
  then show ?case by simp
next
  case (Cons p ps)
  then obtain p' rest where ps': "ps' = p' # rest" by (cases ps') auto
  with Cons.prems have 1: "buildWhereClauseAndValues p = buildWhereClauseAndValues p'"
    and 2: "map buildWhereClauseAndValues ps = map buildWhereClauseAndValues rest" by auto
  show ?case
    unfolding ps' narrow.simps narrow_step_cong[OF 1]
    by (simp add: Cons.IH[OF 2] split: sum.splits option.splits)
qed

lemma findOiers_run_cong:
  assumes "map buildWhereClauseAndValues ps = map buildWhereClauseAndValues ps'"
  shows "findOiers_run db Y (cfg\<lparr>records := Some ps\<rparr>) = findOiers_run db Y (cfg\<lparr>records := Some ps'\<rparr>)"
proof -
  from assms have "length ps = length ps'" by (metis length_map)
  then have ff: "fetch_final db c ps s = fetch_final db c ps' s" for c s
    by (simp add: fetch_final_def)
  show ?thesis
    by (simp add: findOiers_run_def Let_def recordConstraints_def oierConditions_def
          narrow_cong[OF assms] ff split: sum.splits)
qed

lemma buildWhere_province_empty:
  "buildWhereClauseAndValues (p\<lparr>province := Some []\<rparr>) = buildWhereClauseAndValues (p\<lparr>province := None\<rparr>)"
  by (simp add: buildWhereClauseAndValues_def where_conditions_def list_conditions_def)

lemma buildWhere_contest_type_empty:
  "buildWhereClauseAndValues (p\<lparr>contest_type := Some []\<rparr>) = buildWhereClauseAndValues (p\<lparr>contest_type := None\<rparr>)"
  by (simp add: buildWhereClauseAndValues_def where_conditions_def list_conditions_def)

lemma buildWhere_level_range_empty:
  "buildWhereClauseAndValues (p\<lparr>level_range := Some []\<rparr>) = buildWhereClauseAndValues (p\<lparr>level_range := None\<rparr>)"
  by (simp add: buildWhereClauseAndValues_def where_conditions_def list_conditions_def)

section \<open>The conditions on the enrollee table\<close>

lemma eval_enroll_conditions:
  "list_all (eval_oier_cond oi) (enroll_conditions b) = in_bounds b (enroll_middle oi)"
  by (auto simp: enroll_conditions_def in_bounds_def split: option.splits)

lemma eval_grade_conditions:
  "list_all (eval_oier_cond oi) (grade_conditions Y g) = in_bounds (grade_bounds Y g) (enroll_middle oi)"
  by (auto simp: grade_conditions_def grade_bounds_def in_bounds_def split: option.splits)

lemma eval_oierConditions:
  "list_all (eval_oier_cond oi) (oierConditions Y cfg) =
     (in_bounds (enroll_year_range cfg) (enroll_middle oi) \<and>
      in_bounds (grade_bounds Y (grade_range cfg)) (enroll_middle oi))"
  by (simp add: oierConditions_def eval_enroll_conditions eval_grade_conditions)

lemma grade_conditions_Some:
  "grade_conditions Y (Some (min_grade, max_grade)) =
     (case max_grade of None \<Rightarrow> [] | Some g \<Rightarrow> [Enroll_ge (Y - g + 7)]) @
     (case min_grade of None \<Rightarrow> [] | Some g \<Rightarrow> [Enroll_le (Y - g + 7)])"
  by (auto simp: grade_conditions_def split: option.splits)

lemma base_filter_Some_nonempty:
  assumes "conds \<noteq> []"
  shows "base_filter (Some d) conds =
           Inr \<lparr>candidateUids = Some (new_Set (select_oier_uids d conds)), enumerationMode = False,
                lookups = [Q_oier_uids conds]\<rparr>"
  using assms by (simp add: base_filter_def)

lemma base_filter_Nil:
  "base_filter db [] = Inr \<lparr>candidateUids = None, enumerationMode = False, lookups = []\<rparr>"
  by (simp add: base_filter_def)

text \<open>
  C3. An enrollee satisfies the conditions of the base filter exactly when the
  enrollment year is within the bounds of \<open>enroll_year_range\<close> and within the bounds the
  grade range stands for in the current year \<open>Y\<close>, lower bound \<open>Y - max_grade + 7\<close>
  and upper bound \<open>Y - min_grade + 7\<close>, each present only if its grade is; for
  \<open>Y = 2024\<close> and grades 1 to 3 the bounds are 2028 and 2030. When there is a
  condition, the lookup on an initialised store returns the identifiers of exactly those
  enrollees.
\<close>

theorem grade_range_translation:
  "list_all (eval_oier_cond oi) (oierConditions Y cfg) =
     (in_bounds (enroll_year_range cfg) (enroll_middle oi) \<and>
      in_bounds (grade_bounds Y (grade_range cfg)) (enroll_middle oi)) \<and>
   grade_conditions Y (Some (min_grade, max_grade)) =
     (case max_grade of None \<Rightarrow> [] | Some g \<Rightarrow> [Enroll_ge (Y - g + 7)]) @
     (case min_grade of None \<Rightarrow> [] | Some g \<Rightarrow> [Enroll_le (Y - g + 7)]) \<and>
   grade_conditions 2024 (Some (Some 1, Some 3)) = [Enroll_ge 2028, Enroll_le 2030] \<and>
   grade_bounds 2024 (Some (Some 1, Some 3)) = Some (Some 2028, Some 2030) \<and>
   (oierConditions Y cfg \<noteq> [] \<longrightarrow>
      (\<exists>s cs. base_filter (Some d) (oierConditions Y cfg) = Inr s \<and> candidateUids s = Some cs \<and>
         set cs = uid ` {oi \<in> set (OIer_rows d).
                    in_bounds (enroll_year_range cfg) (enroll_middle oi) \<and>
                    in_bounds (grade_bounds Y (grade_range cfg)) (enroll_middle oi)}))"
proof -
  have 3: "grade_conditions 2024 (Some (Some 1, Some 3)) = [Enroll_ge 2028, Enroll_le 2030]"
    by (simp add: grade_conditions_def)
  have 4: "grade_bounds 2024 (Some (Some 1, Some 3)) = Some (Some 2028, Some 2030)"
    by (simp add: grade_bounds_def)
  have 5: "oierConditions Y cfg \<noteq> [] \<longrightarrow>
      (\<exists>s cs. base_filter (Some d) (oierConditions Y cfg) = Inr s \<and> candidateUids s = Some cs \<and>
         set cs = uid ` {oi \<in> set (OIer_rows d).
                    in_bounds (enroll_year_range cfg) (enroll_middle oi) \<and>
                    in_bounds (grade_bounds Y (grade_range cfg)) (enroll_middle oi)})"
    by (simp add: base_filter_Some_nonempty select_oier_uids_def eval_oierConditions)
  show ?thesis
    by (intro conjI) (rule eval_oierConditions grade_conditions_Some 3 4 5)+
qed

theorem grade_range_translation_witness:
  "oierConditions 2024 grade_config = [Enroll_ge 2020, Enroll_le 2021] \<and>
   oierConditions 2024 grade_config \<noteq> [] \<and>
   (\<exists>s cs. base_filter (Some example_db) (oierConditions 2024 grade_config) = Inr s \<and>
      candidateUids s = Some cs \<and>
      set cs = uid ` {oi \<in> set (OIer_rows example_db).
                 in_bounds (enroll_year_range grade_config) (enroll_middle oi) \<and>
                 in_bounds (grade_bounds 2024 (grade_range grade_config)) (enroll_middle oi)})"
proof -
  have c: "oierConditions 2024 grade_config = [Enroll_ge 2020, Enroll_le 2021]"
    by (simp add: oierConditions_def enroll_conditions_def grade_conditions_def
          grade_config_def empty_config_def)
  then have h: "oierConditions 2024 grade_config \<noteq> []" by simp
  show ?thesis
    using c h grade_range_translation[where Y = 2024 and cfg = grade_config and d = example_db]
    by blast
qed

section \<open>The unconstrained query\<close>

lemma sorted_order_by_score_desc:
  "sorted_wrt (\<lambda>a b. oierdb_score b \<le> oierdb_score a) (order_by_score_desc rows)"
proof -
  have "sorted (map (\<lambda>oi. - oierdb_score oi) (order_by_score_desc rows))"
    by (simp add: order_by_score_desc_def)
  then show ?thesis by (simp add: sorted_map)
qed

lemma mset_order_by_score_desc [simp]: "mset (order_by_score_desc rows) = mset rows"
  by (simp add: order_by_score_desc_def)

lemma set_order_by_score_desc [simp]: "set (order_by_score_desc rows) = set rows"
  by (simp add: order_by_score_desc_def)

lemma row_data_comp_values [simp]: "row_data \<circ> Row_values = id"
  by (rule ext) simp

lemma row_data_comp_object [simp]: "row_data \<circ> Row_object = id"
  by (rule ext) simp

lemma no_bounds_enroll_conditions: "no_bounds b \<Longrightarrow> enroll_conditions b = []"
  by (auto simp: no_bounds_def enroll_conditions_def)

lemma no_bounds_grade_conditions: "no_bounds b \<Longrightarrow> grade_conditions Y b = []"
  by (auto simp: no_bounds_def grade_conditions_def)

text \<open>
  C2. For a configuration with no enrollment-year bound, no grade bound and no record
  constraint, \<open>findOiers\<close> on an initialised store returns rows that are, as a
  multiset, all the rows of the enrollee table, in descending order of
  \<open>oierdb_score\<close>.
\<close>

theorem unconstrained_returns_all_sorted:
  assumes "no_bounds (enroll_year_range cfg)" and "no_bounds (grade_range cfg)"
    and "records cfg = None \<or> records cfg = Some []"
  shows "\<exists>rows. findOiers (Some d) Y cfg = Inr rows \<and>
           mset (map row_data rows) = mset (OIer_rows d) \<and>
           sorted_wrt (\<lambda>a b. oierdb_score b \<le> oierdb_score a) (map row_data rows)"
proof -
  have conds: "oierConditions Y cfg = []"
    using assms(1,2)
    by (simp add: oierConditions_def no_bounds_enroll_conditions no_bounds_grade_conditions)
  have recs: "recordConstraints cfg = []"
    using assms(3) by (auto simp: recordConstraints_def)
  have run: "findOiers (Some d) Y cfg = Inr (map Row_values (select_all_oiers d))"
    by (simp add: findOiers_def findOiers_run_def conds recs base_filter_Nil fetch_final_def)
  have data: "map row_data (map Row_values (select_all_oiers d)) = select_all_oiers d"
    by simp
  have "mset (select_all_oiers d) = mset (OIer_rows d)"
    and "sorted_wrt (\<lambda>a b. oierdb_score b \<le> oierdb_score a) (select_all_oiers d)"
    by (simp_all add: select_all_oiers_def sorted_order_by_score_desc)
  then have "mset (map row_data (map Row_values (select_all_oiers d))) = mset (OIer_rows d)"
    and "sorted_wrt (\<lambda>a b. oierdb_score b \<le> oierdb_score a)
           (map row_data (map Row_values (select_all_oiers d)))"
    by (simp_all only: data)
  with run show ?thesis by blast
qed

theorem unconstrained_returns_all_sorted_witness:
  "no_bounds (enroll_year_range empty_config) \<and> no_bounds (grade_range empty_config) \<and>
   records empty_config = None \<and>
   (\<exists>rows. findOiers (Some example_db) 2024 empty_config = Inr rows \<and>
      mset (map row_data rows) = mset (OIer_rows example_db) \<and>
      sorted_wrt (\<lambda>a b. oierdb_score b \<le> oierdb_score a) (map row_data rows))"
proof -
  have h1: "no_bounds (enroll_year_range empty_config)"
    and h2: "no_bounds (grade_range empty_config)"
    and h3: "records empty_config = None"
    by (simp_all add: no_bounds_def empty_config_def)
  from h3 have h3': "records empty_config = None \<or> records empty_config = Some []" by simp
  show ?thesis
    using h1 h2 h3 unconstrained_returns_all_sorted[OF h1 h2 h3', of example_db 2024]
    by blast
qed


section \<open>The narrowing loop\<close>

lemma set_select_record_uids:
  "set (select_record_uids d conds) =
     (\<lambda>rc. r_oier_uid (fst rc)) ` {rc \<in> set (joined_rows d). list_all (eval_cond rc) conds}"
  by (simp add: select_record_uids_def)

lemma set_select_record_uids_scoped:
  "set (select_record_uids d (conds @ [Uid_in cs])) = set (select_record_uids d conds) \<inter> set cs"
  by (auto simp: set_select_record_uids)

lemma narrow_step_Some:
  assumes "candidateUids s = Some cs"
  shows "\<exists>s' cs'. narrow_step (Some d) s p = Inr s' \<and>
           candidateUids s' = Some cs' \<and> set cs' = set cs \<inter> matched d p \<and>
           enumerationMode s' = (enumerationMode s \<or> length cs' < ENUMERATE_THRESHOLD) \<and>
           lookups s' = lookups s @
             [Q_record_uids (if enumerationMode s \<and> cs \<noteq> []
                             then buildWhereClauseAndValues p @ [Uid_in cs]
                             else buildWhereClauseAndValues p)]"
  using assms
  by (auto simp: narrow_step_def final_where_def Let_def matched_def set_select_record_uids_scoped)

lemma narrow_step_None:
  assumes "candidateUids s = None" "\<not> enumerationMode s"
  shows "\<exists>s' cs'. narrow_step (Some d) s p = Inr s' \<and>
           candidateUids s' = Some cs' \<and> set cs' = matched d p \<and>
           enumerationMode s' = (length cs' < ENUMERATE_THRESHOLD) \<and>
           lookups s' = lookups s @ [Q_record_uids (buildWhereClauseAndValues p)]"
  using assms
  by (auto simp: narrow_step_def final_where_def Let_def matched_def)


lemma narrow_Some:
  assumes "candidateUids s = Some cs"
  shows "\<exists>s' cs'. narrow (Some d) s ps = Inr s' \<and> candidateUids s' = Some cs' \<and>
           set cs' = set cs \<inter> (\<Inter>p\<in>set ps. matched d p)"
  using assms
proof (induction ps arbitrary: s cs)
  case Nil
  then show ?case by simp
next
  case (Cons p ps)
  from narrow_step_Some[OF Cons.prems, of d p]
  obtain s1 cs1 where s1: "narrow_step (Some d) s p = Inr s1"
    and c1: "candidateUids s1 = Some cs1" and e1: "set cs1 = set cs \<inter> matched d p"
    by blast
  show ?case
  proof (cases "cs1 = []")
    case True
    with s1 c1 e1 show ?thesis by auto
  next
    case False
    from Cons.IH[OF c1] obtain s' cs' where
      "narrow (Some d) s1 ps = Inr s'" "candidateUids s' = Some cs'"
      "set cs' = set cs1 \<inter> (\<Inter>p\<in>set ps. matched d p)" by blast
    with s1 c1 e1 False show ?thesis by auto
  qed
qed

lemma narrow_None:
  assumes "candidateUids s = None" "\<not> enumerationMode s" "ps \<noteq> []"
  shows "\<exists>s' cs'. narrow (Some d) s ps = Inr s' \<and> candidateUids s' = Some cs' \<and>
           set cs' = (\<Inter>p\<in>set ps. matched d p)"
proof -
  from assms(3) obtain p rest where ps: "ps = p # rest" by (cases ps) auto
  from narrow_step_None[OF assms(1,2), of d p]
  obtain s1 cs1 where s1: "narrow_step (Some d) s p = Inr s1"
    and c1: "candidateUids s1 = Some cs1" and e1: "set cs1 = matched d p"
    by blast
  show ?thesis
  proof (cases "cs1 = []")
    case True
    with s1 c1 e1 ps show ?thesis by auto
  next
    case False
    from narrow_Some[OF c1, of d rest] obtain s' cs' where
      "narrow (Some d) s1 rest = Inr s'" "candidateUids s' = Some cs'"
      "set cs' = set cs1 \<inter> (\<Inter>p\<in>set rest. matched d p)" by blast
    with s1 c1 e1 False ps show ?thesis by auto
  qed
qed

text \<open>
  The loop over a list of constraints in two parts: the second part is not entered
  when the first part was left by \<open>break\<close>.
\<close>

lemma narrow_append:
  "narrow db s (ps @ qs) =
     (case narrow db s ps of
        Inl e \<Rightarrow> Inl e
      | Inr s1 \<Rightarrow> if ps \<noteq> [] \<and> candidateUids s1 = Some [] then Inr s1 else narrow db s1 qs)"
proof (induction ps arbitrary: s)
  case Nil
  then show ?case by simp
next
  case (Cons p ps)
  show ?case
  proof (cases "narrow_step db s p")
    case (Inl e)
    then show ?thesis by simp
  next
    case (Inr s')
    show ?thesis
    proof (cases "candidateUids s'")
      case None
      with Inr show ?thesis by simp
    next
      case (Some cs)
      show ?thesis
      proof (cases "cs = []")
        case True
        with Inr Some show ?thesis by simp
      next
        case False
        have "narrow db s' ps = Inr s1 \<Longrightarrow> ps = [] \<Longrightarrow> candidateUids s1 \<noteq> Some []" for s1
          using Some False by auto
        with Inr Some False show ?thesis
          by (auto simp: Cons.IH split: sum.splits)
      qed
    qed
  qed
qed

section \<open>The whole evaluation\<close>

lemma select_oiers_in_Nil [simp]: "select_oiers_in d [] = []"
  by (simp add: select_oiers_in_def order_by_score_desc_def)

lemma select_oiers_in_set_cong:
  "set cs = set cs' \<Longrightarrow> select_oiers_in d cs = select_oiers_in d cs'"
  by (simp add: select_oiers_in_def)

lemma fetch_final_Some:
  assumes "candidateUids s = Some cs"
  shows "fetch_final (Some d) conds ps s =
           Inr (map Row_object (select_oiers_in d cs),
                if cs = [] then s else s\<lparr>lookups := lookups s @ [Q_oiers_in cs]\<rparr>)"
  using assms by (simp add: fetch_final_def)


lemma findOiers_run_unfold:
  "findOiers_run db Y cfg =
     (case base_filter db (oierConditions Y cfg) of
        Inl e \<Rightarrow> Inl e
      | Inr s0 \<Rightarrow>
          (case narrow db (s0\<lparr>enumerationMode := initial_mode (candidateUids s0)\<rparr>)
                  (recordConstraints cfg) of
             Inl e \<Rightarrow> Inl e
           | Inr s \<Rightarrow> fetch_final db (oierConditions Y cfg) (recordConstraints cfg) s))"
  by (simp add: findOiers_run_def Let_def)

lemma base_filter_Some_cases:
  "\<exists>s0. base_filter (Some d) conds = Inr s0 \<and> \<not> enumerationMode s0 \<and>
          (if conds = [] then candidateUids s0 = None \<and> lookups s0 = []
           else candidateUids s0 = Some (new_Set (select_oier_uids d conds)) \<and>
                lookups s0 = [Q_oier_uids conds])"
  by (simp add: base_filter_def)

text \<open>
  With a condition on enrollees or a record constraint, the evaluation on an initialised
  store returns, and its final candidate set is the intersection of what the base
  filter leaves with what each record constraint matches.
\<close>

lemma findOiers_run_constrained:
  assumes "oierConditions Y cfg \<noteq> [] \<or> recordConstraints cfg \<noteq> []"
  shows "\<exists>s cs. findOiers_run (Some d) Y cfg = Inr (map Row_object (select_oiers_in d cs), s) \<and>
           candidateUids s = Some cs \<and>
           set cs = base_set d (oierConditions Y cfg) \<inter>
                    (\<Inter>p\<in>set (recordConstraints cfg). matched d p)"
proof -
  from base_filter_Some_cases[of d "oierConditions Y cfg"] obtain s0 where
    b: "base_filter (Some d) (oierConditions Y cfg) = Inr s0"
    and c0: "if oierConditions Y cfg = [] then candidateUids s0 = None
             else candidateUids s0 = Some (new_Set (select_oier_uids d (oierConditions Y cfg)))"
    by (auto split: if_splits)
  let ?s = "s0\<lparr>enumerationMode := initial_mode (candidateUids s0)\<rparr>"
  have "\<exists>s1 cs1. narrow (Some d) ?s (recordConstraints cfg) = Inr s1 \<and>
          candidateUids s1 = Some cs1 \<and>
          set cs1 = base_set d (oierConditions Y cfg) \<inter>
                    (\<Inter>p\<in>set (recordConstraints cfg). matched d p)"
  proof (cases "oierConditions Y cfg = []")
    case True
    with assms have ne: "recordConstraints cfg \<noteq> []" by simp
    from True c0 have "candidateUids ?s = None" and "\<not> enumerationMode ?s"
      by (simp_all add: initial_mode_def)
    from narrow_None[OF this ne, of d] True show ?thesis
      by (simp add: base_set_def)
  next
    case False
    with c0 have "candidateUids ?s = Some (new_Set (select_oier_uids d (oierConditions Y cfg)))"
      by simp
    from narrow_Some[OF this, of d "recordConstraints cfg"] False show ?thesis
      by (simp add: base_set_def)
  qed
  then obtain s1 cs1 where
    n: "narrow (Some d) ?s (recordConstraints cfg) = Inr s1"
    and c: "candidateUids s1 = Some cs1"
    and e: "set cs1 = base_set d (oierConditions Y cfg) \<inter>
                      (\<Inter>p\<in>set (recordConstraints cfg). matched d p)"
    by blast
  have "findOiers_run (Some d) Y cfg =
          Inr (map Row_object (select_oiers_in d cs1),
               if cs1 = [] then s1 else s1\<lparr>lookups := lookups s1 @ [Q_oiers_in cs1]\<rparr>)"
    unfolding findOiers_run_unfold b sum.case n fetch_final_Some[OF c] ..
  with c e show ?thesis
    by (cases "cs1 = []") auto
qed

lemma findOiers_run_unconstrained:
  assumes "oierConditions Y cfg = []" "recordConstraints cfg = []"
  shows "findOiers_run (Some d) Y cfg =
           Inr (map Row_values (select_all_oiers d),
                \<lparr>candidateUids = None, enumerationMode = False, lookups = [Q_all_oiers]\<rparr>)"
  by (simp add: findOiers_run_unfold assms base_filter_Nil fetch_final_def initial_mode_def)

text \<open>Every path of \<open>findOiers\<close> calls a method of \<open>db\<close> before it returns.\<close>

lemma findOiers_run_None:
  "findOiers_run None Y cfg = Inl (TypeError undefined_db_message)"
proof (cases "oierConditions Y cfg = []")
  case True
  show ?thesis
  proof (cases "recordConstraints cfg")
    case Nil
    then show ?thesis
      by (simp add: findOiers_run_unfold True base_filter_Nil fetch_final_def)
  next
    case (Cons p ps)
    then show ?thesis
      by (simp add: findOiers_run_unfold True base_filter_Nil initial_mode_def
            narrow_step_def final_where_def)
  qed
next
  case False
  then show ?thesis
    by (simp add: findOiers_run_unfold base_filter_def)
qed

lemma oierConditions_records [simp]:
  "oierConditions Y (cfg\<lparr>records := r\<rparr>) = oierConditions Y cfg"
  by (simp add: oierConditions_def)

lemma recordConstraints_records [simp]: "recordConstraints (cfg\<lparr>records := Some ps\<rparr>) = ps"
  by (simp add: recordConstraints_def)

lemma mset_eq_record_lists:
  assumes "mset ps' = mset ps"
  shows "set ps' = set ps" and "(ps' = []) = (ps = [])"
  using assms by (metis mset_eq_setD, metis mset_zero_iff)

section \<open>The candidate set only shrinks\<close>

text \<open>
  C10. On an initialised store, when the candidate set is non-null before a record
  constraint is processed, processing the constraint returns and the candidate set
  after it is a subset of the one before; and the final candidate set of the loop over
  a list of constraints is a subset of the candidate set reached after any prefix of
  the list.
\<close>

theorem candidates_only_shrink:
  "(candidateUids s = Some cs \<longrightarrow>
      (\<exists>s' cs'. narrow_step (Some d) s p = Inr s' \<and> candidateUids s' = Some cs' \<and>
         set cs' \<subseteq> set cs)) \<and>
   (narrow (Some d) s ps = Inr t \<and> candidateUids t = Some ct \<longrightarrow>
      (\<exists>u cu. narrow (Some d) s (ps @ qs) = Inr u \<and> candidateUids u = Some cu \<and>
         set cu \<subseteq> set ct))"
proof (intro conjI impI)
  assume "candidateUids s = Some cs"
  from narrow_step_Some[OF this, of d p]
  show "\<exists>s' cs'. narrow_step (Some d) s p = Inr s' \<and> candidateUids s' = Some cs' \<and>
          set cs' \<subseteq> set cs"
    by blast
next
  assume a: "narrow (Some d) s ps = Inr t \<and> candidateUids t = Some ct"
  then have n: "narrow (Some d) s ps = Inr t" and c: "candidateUids t = Some ct"
    by simp_all
  show "\<exists>u cu. narrow (Some d) s (ps @ qs) = Inr u \<and> candidateUids u = Some cu \<and>
          set cu \<subseteq> set ct"
  proof (cases "ps \<noteq> [] \<and> ct = []")
    case True
    with n c have "narrow (Some d) s (ps @ qs) = Inr t"
      by (simp add: narrow_append)
    with c show ?thesis by auto
  next
    case False
    with n c have "narrow (Some d) s (ps @ qs) = narrow (Some d) t qs"
      by (auto simp: narrow_append)
    with narrow_Some[OF c, of d qs] show ?thesis by auto
  qed
qed

theorem candidates_only_shrink_witness:
  "(\<exists>s' cs'. narrow_step (Some example_db)
                \<lparr>candidateUids = Some [1, 2], enumerationMode = True, lookups = []\<rparr>
                sh_constraint = Inr s' \<and>
      candidateUids s' = Some cs' \<and> set cs' \<subseteq> set [1, 2]) \<and>
   narrow (Some example_db) \<lparr>candidateUids = None, enumerationMode = False, lookups = []\<rparr>
     [gold_constraint] =
     Inr \<lparr>candidateUids = Some [1, 2], enumerationMode = True,
          lookups = [Q_record_uids [In_list Col_r_level [''gold'']]]\<rparr> \<and>
   (\<exists>u cu. narrow (Some example_db)
                \<lparr>candidateUids = None, enumerationMode = False, lookups = []\<rparr>
                ([gold_constraint] @ [sh_constraint]) = Inr u \<and>
      candidateUids u = Some cu \<and> set cu \<subseteq> set [1, 2])"
proof -
  have h1: "candidateUids \<lparr>candidateUids = Some [1, 2], enumerationMode = True, lookups = []\<rparr>
              = Some [1, 2]"
    by simp
  have h2: "narrow (Some example_db) \<lparr>candidateUids = None, enumerationMode = False, lookups = []\<rparr>
     [gold_constraint] =
     Inr \<lparr>candidateUids = Some [1, 2], enumerationMode = True,
          lookups = [Q_record_uids [In_list Col_r_level [''gold'']]]\<rparr>"
    by code_simp
  have h3: "candidateUids \<lparr>candidateUids = Some [1, 2], enumerationMode = True,
          lookups = [Q_record_uids [In_list Col_r_level [''gold'']]]\<rparr> = Some [1, 2]"
    by simp
  show ?thesis
    using h1 h2 h3
      candidates_only_shrink[where s = "\<lparr>candidateUids = Some [1, 2], enumerationMode = True, lookups = []\<rparr>"
        and cs = "[1, 2]" and d = example_db and p = sh_constraint and ps = "[]" and qs = "[]"
        and ct = "[1, 2]"
        and t = "\<lparr>candidateUids = Some [1, 2], enumerationMode = True, lookups = []\<rparr>"]
      candidates_only_shrink[where s = "\<lparr>candidateUids = None, enumerationMode = False, lookups = []\<rparr>"
        and d = example_db and ps = "[gold_constraint]" and qs = "[sh_constraint]"
        and ct = "[1, 2]"
        and t = "\<lparr>candidateUids = Some [1, 2], enumerationMode = True,
          lookups = [Q_record_uids [In_list Col_r_level [''gold'']]]\<rparr>"]
    by blast
qed

section \<open>The order of the record constraints\<close>

text \<open>
  C1. For every configuration and every permutation of its \<open>records\<close>, the evaluation
  on an initialised store returns for both orders, with the same sequence of rows and
  the same final candidate set (as a set); the lookups issued may differ. On an
  uninitialised store both orders throw the same exception. Rows of equal score are in
  table order in the model.
\<close>

theorem record_order_independent:
  assumes "mset ps' = mset ps"
  shows "(\<exists>rows s s'.
            findOiers_run (Some d) Y (cfg\<lparr>records := Some ps\<rparr>) = Inr (rows, s) \<and>
            findOiers_run (Some d) Y (cfg\<lparr>records := Some ps'\<rparr>) = Inr (rows, s') \<and>
            map_option set (candidateUids s) = map_option set (candidateUids s')) \<and>
         findOiers_run None Y (cfg\<lparr>records := Some ps\<rparr>) =
           findOiers_run None Y (cfg\<lparr>records := Some ps'\<rparr>)"
proof -
  let ?c = "cfg\<lparr>records := Some ps\<rparr>" and ?c' = "cfg\<lparr>records := Some ps'\<rparr>"
  note perm = mset_eq_record_lists[OF assms]
  have "\<exists>rows s s'.
            findOiers_run (Some d) Y ?c = Inr (rows, s) \<and>
            findOiers_run (Some d) Y ?c' = Inr (rows, s') \<and>
            map_option set (candidateUids s) = map_option set (candidateUids s')"
  proof (cases "oierConditions Y cfg = [] \<and> ps = []")
    case True
    with perm have "oierConditions Y ?c = []" "recordConstraints ?c = []"
      "oierConditions Y ?c' = []" "recordConstraints ?c' = []"
      by simp_all
    then show ?thesis
      by (simp add: findOiers_run_unconstrained)
  next
    case False
    then have 1: "oierConditions Y ?c \<noteq> [] \<or> recordConstraints ?c \<noteq> []"
      by simp
    with perm have 2: "oierConditions Y ?c' \<noteq> [] \<or> recordConstraints ?c' \<noteq> []"
      by simp
    from findOiers_run_constrained[OF 1, of d] obtain s cs where
      r: "findOiers_run (Some d) Y ?c = Inr (map Row_object (select_oiers_in d cs), s)"
      and c: "candidateUids s = Some cs"
      and e: "set cs = base_set d (oierConditions Y cfg) \<inter> (\<Inter>p\<in>set ps. matched d p)"
      by auto
    from findOiers_run_constrained[OF 2, of d] obtain s' cs' where
      r': "findOiers_run (Some d) Y ?c' = Inr (map Row_object (select_oiers_in d cs'), s')"
      and c': "candidateUids s' = Some cs'"
      and e': "set cs' = base_set d (oierConditions Y cfg) \<inter> (\<Inter>p\<in>set ps'. matched d p)"
      by auto
    from e e' perm have eq: "set cs = set cs'" by simp
    from select_oiers_in_set_cong[OF eq, of d]
    have "select_oiers_in d cs = select_oiers_in d cs'" .
    with r r' c c' eq show ?thesis by simp
  qed
  then show ?thesis
    by (simp only: findOiers_run_None simp_thms)
qed

theorem record_order_independent_witness:
  "mset [sh_constraint, gold_constraint, since_2023_constraint] =
     mset [gold_constraint, since_2023_constraint, sh_constraint] \<and>
   (\<exists>rows s s'.
      findOiers_run (Some example_db) 2024
        (empty_config\<lparr>records := Some [gold_constraint, since_2023_constraint, sh_constraint]\<rparr>) =
        Inr (rows, s) \<and>
      findOiers_run (Some example_db) 2024
        (empty_config\<lparr>records := Some [sh_constraint, gold_constraint, since_2023_constraint]\<rparr>) =
        Inr (rows, s') \<and>
      map_option set (candidateUids s) = map_option set (candidateUids s'))"
proof -
  have h: "mset [sh_constraint, gold_constraint, since_2023_constraint] =
     mset [gold_constraint, since_2023_constraint, sh_constraint]"
    by (simp add: add.commute)
  show ?thesis
    using h record_order_independent[OF h, of example_db 2024 empty_config]
    by blast
qed


section \<open>Enumeration mode\<close>









section \<open>An empty candidate set\<close>





section \<open>An uninitialised store\<close>

text \<open>
  C8, as the code has it. With the store handle uninitialised, every call of
  \<open>findOiers\<close> throws the engine's exception for a method call on an undefined value
  before any lookup, and \<open>executeQuery\<close> shows the message of that exception after
  the words \<open>Query execution failed:\<close> (or, for an empty configuration, the
  message for an invalid configuration). The handler gives every exception this same
  form, so only the message carried tells one cause from another.
\<close>

theorem uninitialised_store_fails:
  "findOiers_run None Y cfg = Inl (TypeError undefined_db_message) \<and>
   findOiers None Y cfg = Inl (TypeError undefined_db_message) \<and>
   executeQuery None Y (Some cfg) =
     DisplayError (''Query execution failed: '' @ undefined_db_message) \<and>
   executeQuery None Y None = DisplayError ''Invalid or empty configuration.'' \<and>
   catch_handler e = DisplayError (''Query execution failed: '' @ message e)"
  by (simp add: findOiers_def findOiers_run_None executeQuery_def catch_handler_def)

theorem uninitialised_store_fails_witness:
  "executeQuery None 2024 (Some grade_config) =
     DisplayError ''Query execution failed: db is undefined''"
  using uninitialised_store_fails[of 2024 grade_config]
  by (simp add: undefined_db_message_def)

text \<open>
  What is shown for an uninitialised store is what the handler shows for a failure of
  the store with the same message; the kind of the exception is not part of it.
\<close>

theorem same_wrapper_counterexample:
  "executeQuery None 2024 (Some grade_config) = catch_handler (StoreError undefined_db_message) \<and>
   catch_handler (TypeError ''no such table'') = catch_handler (StoreError ''no such table'')"
  by code_simp

section \<open>What is displayed\<close>

lemma table_rows_objects [simp]: "table_rows (map Row_object rows) = Inr rows"
  by (induction rows) simp_all

lemma sorted_select_oiers_in:
  "sorted_wrt (\<lambda>a b. oierdb_score b \<le> oierdb_score a) (select_oiers_in d cs)"
  by (simp add: select_oiers_in_def sorted_order_by_score_desc)

lemma set_select_oiers_in:
  "set (select_oiers_in d cs) = {oi \<in> set (OIer_rows d). uid oi \<in> set cs}"
  by (auto simp: select_oiers_in_def)

text \<open>
  The rows of the unconstrained query are arrays of values, and the table of results
  reads fields by name: with a non-empty dataset the display of the unconstrained
  query throws, and the handler shows the error.
\<close>

lemma unconstrained_display_throws:
  "executeQuery (Some example_db) 2024 (Some empty_config) =
     DisplayError (''Query execution failed: '' @ undefined_toFixed_message)"
  by code_simp

lemma matched_uids_where: "matched d p = uids_where d (constraint_matches p)"
  by (simp add: matched_def uids_where_def set_select_record_uids eval_buildWhere)

lemma enroll_conditions_Nil: "(enroll_conditions b = []) = no_bounds b"
  by (auto simp: enroll_conditions_def no_bounds_def split: option.splits)

lemma grade_conditions_Nil: "(grade_conditions Y b = []) = no_bounds b"
  by (auto simp: grade_conditions_def no_bounds_def split: option.splits)

lemma oierConditions_Nil:
  "(oierConditions Y cfg = []) = (no_bounds (enroll_year_range cfg) \<and> no_bounds (grade_range cfg))"
  by (simp add: oierConditions_def enroll_conditions_Nil grade_conditions_Nil)

lemma base_set_enrollees_within:
  "base_set d (oierConditions Y cfg) = enrollees_within d Y cfg"
proof (cases "oierConditions Y cfg = []")
  case True
  then have "no_bounds (enroll_year_range cfg) \<and> no_bounds (grade_range cfg)"
    by (simp add: oierConditions_Nil)
  with True show ?thesis
    by (simp add: base_set_def enrollees_within_def)
next
  case False
  then have "\<not> (no_bounds (enroll_year_range cfg) \<and> no_bounds (grade_range cfg))"
    by (simp add: oierConditions_Nil)
  then have "enrollees_within d Y cfg =
      uid ` {oi \<in> set (OIer_rows d).
               in_bounds (enroll_year_range cfg) (enroll_middle oi) \<and>
               in_bounds (grade_bounds Y (grade_range cfg)) (enroll_middle oi)}"
    unfolding enrollees_within_def by (rule if_not_P)
  with False show ?thesis
    by (simp add: base_set_def select_oier_uids_def eval_oierConditions)
qed

text \<open>
  C9, as the code has it. For a configuration with a condition on enrollees or a record
  constraint, on an initialised store, what is displayed is: the rows of the enrollee
  table whose identifier is within the enrollment bounds (the given years and those the
  grades stand for) and has, for every record constraint, a record of the join that
  satisfies it, in descending order of score; together with the configuration as it
  was given, where an entry is left out only if it is absent, a pair of nulls or an
  empty list. The grade range is shown as given and the enrollment-year entry is the
  one given: no bound derived from the grades is written into it.
\<close>

theorem displayed_output:
  assumes "oierConditions Y cfg \<noteq> [] \<or> (\<exists>p ps. records cfg = Some (p # ps))"
  shows "\<exists>rows s cs shown.
           findOiers_run (Some d) Y cfg = Inr (map Row_object rows, s) \<and>
           candidateUids s = Some cs \<and>
           set cs = enrollees_within d Y cfg \<inter>
             (\<Inter>p\<in>set (case records cfg of None \<Rightarrow> [] | Some ps \<Rightarrow> ps).
                uids_where d (constraint_matches p)) \<and>
           set rows = {oi \<in> set (OIer_rows d). uid oi \<in> set cs} \<and>
           mset rows =
             mset (filter (\<lambda>oi. uid oi \<in> enrollees_within d Y cfg \<inter>
                       (\<Inter>p\<in>set (case records cfg of None \<Rightarrow> [] | Some ps \<Rightarrow> ps).
                          uids_where d (constraint_matches p)))
                     (OIer_rows d)) \<and>
           sorted_wrt (\<lambda>a b. oierdb_score b \<le> oierdb_score a) rows \<and>
           executeQuery (Some d) Y (Some cfg) = DisplayResults rows shown \<and>
           enroll_year_range shown =
             (if enroll_year_range cfg = Some (None, None) then None else enroll_year_range cfg) \<and>
           grade_range shown =
             (if grade_range cfg = Some (None, None) then None else grade_range cfg) \<and>
           records shown = (if records cfg = Some [] then None else records cfg) \<and>
           shown = cleanConfig cfg \<and>
           grade_range (cleanConfig cfg) = clean_pair (grade_range cfg) \<and>
           enroll_year_range (cleanConfig cfg) = clean_pair (enroll_year_range cfg)"
proof -
  let ?M = "enrollees_within d Y cfg \<inter>
             (\<Inter>p\<in>set (case records cfg of None \<Rightarrow> [] | Some ps \<Rightarrow> ps).
                uids_where d (constraint_matches p))"
  from assms have "oierConditions Y cfg \<noteq> [] \<or> recordConstraints cfg \<noteq> []"
    by (auto simp: recordConstraints_def)
  from findOiers_run_constrained[OF this, of d] obtain s cs where
    r: "findOiers_run (Some d) Y cfg = Inr (map Row_object (select_oiers_in d cs), s)"
    and c: "candidateUids s = Some cs"
    and e: "set cs = base_set d (oierConditions Y cfg) \<inter>
                     (\<Inter>p\<in>set (recordConstraints cfg). matched d p)"
    by blast
  from e have e': "set cs = ?M"
    by (simp add: base_set_enrollees_within matched_uids_where recordConstraints_def)
  have m: "mset (select_oiers_in d cs) = mset (filter (\<lambda>oi. uid oi \<in> ?M) (OIer_rows d))"
    by (simp add: select_oiers_in_def e')
  from r have x: "executeQuery (Some d) Y (Some cfg) =
                 DisplayResults (select_oiers_in d cs) (cleanConfig cfg)"
    by (simp add: executeQuery_def findOiers_def displayResults_def)
  have p: "clean_pair b = (if b = Some (None, None) then None else b)" for b :: "int bound_pair"
    by (auto simp: clean_pair_def split: option.splits)
  have k1: "enroll_year_range (cleanConfig cfg) =
             (if enroll_year_range cfg = Some (None, None) then None else enroll_year_range cfg)"
    and k2: "grade_range (cleanConfig cfg) =
             (if grade_range cfg = Some (None, None) then None else grade_range cfg)"
    and k3: "records (cleanConfig cfg) = (if records cfg = Some [] then None else records cfg)"
    and k4: "grade_range (cleanConfig cfg) = clean_pair (grade_range cfg)"
    and k5: "enroll_year_range (cleanConfig cfg) = clean_pair (enroll_year_range cfg)"
    by (auto simp: cleanConfig_def p split: option.splits)
  show ?thesis
    by (intro exI[of _ "select_oiers_in d cs"] exI[of _ s] exI[of _ cs]
          exI[of _ "cleanConfig cfg"] conjI)
      (rule r c e' m x k1 k2 k3 k4 k5 sorted_select_oiers_in set_select_oiers_in refl)+
qed

theorem displayed_output_witness:
  "oierConditions 2024 grade_config \<noteq> [] \<and>
   (\<exists>rows s cs shown.
           findOiers_run (Some example_db) 2024 grade_config = Inr (map Row_object rows, s) \<and>
           candidateUids s = Some cs \<and>
           set cs = enrollees_within example_db 2024 grade_config \<inter>
             (\<Inter>p\<in>set (case records grade_config of None \<Rightarrow> [] | Some ps \<Rightarrow> ps).
                uids_where example_db (constraint_matches p)) \<and>
           set rows = {oi \<in> set (OIer_rows example_db). uid oi \<in> set cs} \<and>
           mset rows =
             mset (filter (\<lambda>oi. uid oi \<in> enrollees_within example_db 2024 grade_config \<inter>
                       (\<Inter>p\<in>set (case records grade_config of None \<Rightarrow> [] | Some ps \<Rightarrow> ps).
                          uids_where example_db (constraint_matches p)))
                     (OIer_rows example_db)) \<and>
           sorted_wrt (\<lambda>a b. oierdb_score b \<le> oierdb_score a) rows \<and>
           executeQuery (Some example_db) 2024 (Some grade_config) = DisplayResults rows shown \<and>
           enroll_year_range shown =
             (if enroll_year_range grade_config = Some (None, None) then None
              else enroll_year_range grade_config) \<and>
           grade_range shown =
             (if grade_range grade_config = Some (None, None) then None
              else grade_range grade_config) \<and>
           records shown = (if records grade_config = Some [] then None else records grade_config) \<and>
           shown = cleanConfig grade_config \<and>
           grade_range (cleanConfig grade_config) = clean_pair (grade_range grade_config) \<and>
           enroll_year_range (cleanConfig grade_config) =
             clean_pair (enroll_year_range grade_config)) \<and>
   grade_range grade_config = Some (Some 10, Some 11) \<and> enroll_year_range grade_config = None"
proof -
  have h: "oierConditions 2024 grade_config \<noteq> []"
    by (simp add: oierConditions_def enroll_conditions_def grade_conditions_def
          grade_config_def empty_config_def)
  then have h': "oierConditions 2024 grade_config \<noteq> [] \<or>
                 (\<exists>p ps. records grade_config = Some (p # ps))" by simp
  have g: "grade_range grade_config = Some (Some 10, Some 11)"
    "enroll_year_range grade_config = None"
    by (simp_all add: grade_config_def empty_config_def)
  note T = displayed_output[OF h', of example_db]
  show ?thesis
    by (intro conjI) (rule h g T)+
qed

text \<open>
  In 2024 the grades 10 to 11 stand for the enrollment years 2020 to 2021; the
  configuration shown with the results has the grade range and no enrollment years.
\<close>

theorem untranslated_config_counterexample:
  "executeQuery (Some example_db) 2024 (Some grade_config) =
     DisplayResults
       [\<lparr>uid = 1, name = ''a'', gender = 1, enroll_middle = 2020, oierdb_score = 90,
         ccf_score = 10, ccf_level = 5\<rparr>,
        \<lparr>uid = 2, name = ''b'', gender = -1, enroll_middle = 2021, oierdb_score = 80,
         ccf_score = 20, ccf_level = 6\<rparr>]
       \<lparr>enroll_year_range = None, grade_range = Some (Some 10, Some 11), records = None\<rparr> \<and>
   oierConditions 2024 grade_config = [Enroll_ge 2020, Enroll_le 2021]"
  by code_simp


section \<open>An empty set filter leaves the field unconstrained\<close>

lemma narrow_step_sem:
  assumes "enumerationMode s \<longrightarrow> candidateUids s \<noteq> None"
  shows "\<exists>s' cs'. narrow_step (Some d) s p = Inr s' \<and> candidateUids s' = Some cs' \<and>
           set cs' = candidate_set s \<inter> uids_where d (constraint_matches p)"
proof (cases "candidateUids s")
  case None
  with assms have "\<not> enumerationMode s" by simp
  from narrow_step_None[OF None this, of d p] None show ?thesis
    by (auto simp: candidate_set_def matched_uids_where)
next
  case (Some cs)
  from narrow_step_Some[OF Some, of d p] Some show ?thesis
    by (auto simp: candidate_set_def matched_uids_where)
qed

lemma constraint_matches_province_empty:
  "constraint_matches (p\<lparr>province := Some []\<rparr>) =
     (\<lambda>row. in_bounds (year_range p) (num_value Col_c_year row) \<and>
            in_bounds (score_range p) (num_value Col_r_score row) \<and>
            in_bounds (rank_range p) (num_value Col_r_rank row) \<and>
            in_set_filter (level_range p) (list_value Col_r_level row) \<and>
            in_set_filter (contest_type p) (list_value Col_c_type row))"
  by (rule ext) (simp add: constraint_matches_def in_set_filter_def)

lemma constraint_matches_contest_type_empty:
  "constraint_matches (p\<lparr>contest_type := Some []\<rparr>) =
     (\<lambda>row. in_bounds (year_range p) (num_value Col_c_year row) \<and>
            in_bounds (score_range p) (num_value Col_r_score row) \<and>
            in_bounds (rank_range p) (num_value Col_r_rank row) \<and>
            in_set_filter (province p) (list_value Col_r_province row) \<and>
            in_set_filter (level_range p) (list_value Col_r_level row))"
  by (rule ext) (simp add: constraint_matches_def in_set_filter_def)

lemma constraint_matches_level_range_empty:
  "constraint_matches (p\<lparr>level_range := Some []\<rparr>) =
     (\<lambda>row. in_bounds (year_range p) (num_value Col_c_year row) \<and>
            in_bounds (score_range p) (num_value Col_r_score row) \<and>
            in_bounds (rank_range p) (num_value Col_r_rank row) \<and>
            in_set_filter (province p) (list_value Col_r_province row) \<and>
            in_set_filter (contest_type p) (list_value Col_c_type row))"
  by (rule ext) (simp add: constraint_matches_def in_set_filter_def)

lemma constraint_matches_only_empty:
  "constraint_matches (no_constraint\<lparr>province := Some []\<rparr>) = (\<lambda>row. True)"
  "constraint_matches (no_constraint\<lparr>contest_type := Some []\<rparr>) = (\<lambda>row. True)"
  "constraint_matches (no_constraint\<lparr>level_range := Some []\<rparr>) = (\<lambda>row. True)"
  by (rule ext, simp add: constraint_matches_def in_set_filter_def in_bounds_def no_constraint_def)+

lemma findOiers_run_single:
  assumes "oierConditions Y cfg = []"
  shows "\<exists>rows s cs. findOiers_run (Some d) Y (cfg\<lparr>records := Some [q]\<rparr>) = Inr (map Row_object rows, s) \<and>
           candidateUids s = Some cs \<and> set cs = uids_where d (constraint_matches q) \<and>
           mset rows = mset (filter (\<lambda>oi. uid oi \<in> uids_where d (constraint_matches q)) (OIer_rows d)) \<and>
           sorted_wrt (\<lambda>a b. oierdb_score b \<le> oierdb_score a) rows"
proof -
  have "oierConditions Y (cfg\<lparr>records := Some [q]\<rparr>) \<noteq> [] \<or>
        recordConstraints (cfg\<lparr>records := Some [q]\<rparr>) \<noteq> []"
    by simp
  from findOiers_run_constrained[OF this, of d] obtain s cs where
    r: "findOiers_run (Some d) Y (cfg\<lparr>records := Some [q]\<rparr>) =
          Inr (map Row_object (select_oiers_in d cs), s)"
    and c: "candidateUids s = Some cs"
    and e: "set cs = uids_where d (constraint_matches q)"
    using assms by (auto simp: base_set_def matched_uids_where)
  have "mset (select_oiers_in d cs) =
          mset (filter (\<lambda>oi. uid oi \<in> uids_where d (constraint_matches q)) (OIer_rows d))"
    by (simp add: select_oiers_in_def e)
  with r c e show ?thesis
    using sorted_select_oiers_in[of d cs] by blast
qed

text \<open>
  C6. For each of the set filters province, contest type and level on its own, a
  record constraint with the filter set to the empty list behaves as the constraint
  with the filter absent, and both leave the field unconstrained:
  \<^item> the empty list and the absent filter contribute no condition, and the two
    constraints compile to the same predicate; a constraint with nothing but the empty
    filter compiles to the tautology;
  \<^item> a row of the join satisfies the compiled predicate exactly when it satisfies
    the conditions of the other five fields, whatever its value in the emptied field;
  \<^item> processing the constraint on an initialised store returns, and leaves the
    candidates that have a row of the join satisfying the other five fields;
  \<^item> a configuration with no enrollment bound whose only constraint has nothing but
    the empty filter returns every enrollee that has a record, in descending order of
    score;
  \<^item> an evaluation of a configuration holding the one constraint gives the same
    outcome (rows, final candidate set, lookups issued, or exception) as the evaluation
    of the configuration holding the other in its place.
\<close>

theorem empty_set_filter_is_absent:
  "buildWhereClauseAndValues (p\<lparr>province := Some []\<rparr>) = buildWhereClauseAndValues (p\<lparr>province := None\<rparr>) \<and>
   buildWhereClauseAndValues (p\<lparr>contest_type := Some []\<rparr>) = buildWhereClauseAndValues (p\<lparr>contest_type := None\<rparr>) \<and>
   buildWhereClauseAndValues (p\<lparr>level_range := Some []\<rparr>) = buildWhereClauseAndValues (p\<lparr>level_range := None\<rparr>) \<and>
   findOiers_run db Y (cfg\<lparr>records := Some (pre @ p\<lparr>province := Some []\<rparr> # post)\<rparr>) =
     findOiers_run db Y (cfg\<lparr>records := Some (pre @ p\<lparr>province := None\<rparr> # post)\<rparr>) \<and>
   findOiers_run db Y (cfg\<lparr>records := Some (pre @ p\<lparr>contest_type := Some []\<rparr> # post)\<rparr>) =
     findOiers_run db Y (cfg\<lparr>records := Some (pre @ p\<lparr>contest_type := None\<rparr> # post)\<rparr>) \<and>
   findOiers_run db Y (cfg\<lparr>records := Some (pre @ p\<lparr>level_range := Some []\<rparr> # post)\<rparr>) =
     findOiers_run db Y (cfg\<lparr>records := Some (pre @ p\<lparr>level_range := None\<rparr> # post)\<rparr>) \<and>
   list_conditions lcol (Some []) = [] \<and> list_conditions lcol None = [] \<and>
   buildWhereClauseAndValues (no_constraint\<lparr>province := Some []\<rparr>) = [Always] \<and>
   buildWhereClauseAndValues (no_constraint\<lparr>contest_type := Some []\<rparr>) = [Always] \<and>
   buildWhereClauseAndValues (no_constraint\<lparr>level_range := Some []\<rparr>) = [Always] \<and>
   (\<forall>row. list_all (eval_cond row) (buildWhereClauseAndValues (p\<lparr>province := Some []\<rparr>)) =
      (in_bounds (year_range p) (num_value Col_c_year row) \<and>
       in_bounds (score_range p) (num_value Col_r_score row) \<and>
       in_bounds (rank_range p) (num_value Col_r_rank row) \<and>
       in_set_filter (level_range p) (list_value Col_r_level row) \<and>
       in_set_filter (contest_type p) (list_value Col_c_type row))) \<and>
   (\<forall>row. list_all (eval_cond row) (buildWhereClauseAndValues (p\<lparr>contest_type := Some []\<rparr>)) =
      (in_bounds (year_range p) (num_value Col_c_year row) \<and>
       in_bounds (score_range p) (num_value Col_r_score row) \<and>
       in_bounds (rank_range p) (num_value Col_r_rank row) \<and>
       in_set_filter (province p) (list_value Col_r_province row) \<and>
       in_set_filter (level_range p) (list_value Col_r_level row))) \<and>
   (\<forall>row. list_all (eval_cond row) (buildWhereClauseAndValues (p\<lparr>level_range := Some []\<rparr>)) =
      (in_bounds (year_range p) (num_value Col_c_year row) \<and>
       in_bounds (score_range p) (num_value Col_r_score row) \<and>
       in_bounds (rank_range p) (num_value Col_r_rank row) \<and>
       in_set_filter (province p) (list_value Col_r_province row) \<and>
       in_set_filter (contest_type p) (list_value Col_c_type row))) \<and>
   ((enumerationMode s \<longrightarrow> candidateUids s \<noteq> None) \<longrightarrow>
      (\<exists>s' cs'. narrow_step (Some d) s (p\<lparr>province := Some []\<rparr>) = Inr s' \<and>
         candidateUids s' = Some cs' \<and>
         set cs' = candidate_set s \<inter>
           uids_where d (\<lambda>row. in_bounds (year_range p) (num_value Col_c_year row) \<and>
                              in_bounds (score_range p) (num_value Col_r_score row) \<and>
                              in_bounds (rank_range p) (num_value Col_r_rank row) \<and>
                              in_set_filter (level_range p) (list_value Col_r_level row) \<and>
                              in_set_filter (contest_type p) (list_value Col_c_type row))) \<and>
      (\<exists>s' cs'. narrow_step (Some d) s (p\<lparr>contest_type := Some []\<rparr>) = Inr s' \<and>
         candidateUids s' = Some cs' \<and>
         set cs' = candidate_set s \<inter>
           uids_where d (\<lambda>row. in_bounds (year_range p) (num_value Col_c_year row) \<and>
                              in_bounds (score_range p) (num_value Col_r_score row) \<and>
                              in_bounds (rank_range p) (num_value Col_r_rank row) \<and>
                              in_set_filter (province p) (list_value Col_r_province row) \<and>
                              in_set_filter (level_range p) (list_value Col_r_level row))) \<and>
      (\<exists>s' cs'. narrow_step (Some d) s (p\<lparr>level_range := Some []\<rparr>) = Inr s' \<and>
         candidateUids s' = Some cs' \<and>
         set cs' = candidate_set s \<inter>
           uids_where d (\<lambda>row. in_bounds (year_range p) (num_value Col_c_year row) \<and>
                              in_bounds (score_range p) (num_value Col_r_score row) \<and>
                              in_bounds (rank_range p) (num_value Col_r_rank row) \<and>
                              in_set_filter (province p) (list_value Col_r_province row) \<and>
                              in_set_filter (contest_type p) (list_value Col_c_type row)))) \<and>
   (oierConditions Y cfg = [] \<longrightarrow>
      (\<exists>rows t cs. findOiers_run (Some d) Y (cfg\<lparr>records := Some [no_constraint\<lparr>province := Some []\<rparr>]\<rparr>) =
           Inr (map Row_object rows, t) \<and>
         candidateUids t = Some cs \<and> set cs = uids_where d (\<lambda>row. True) \<and>
         mset rows = mset (filter (\<lambda>oi. uid oi \<in> uids_where d (\<lambda>row. True)) (OIer_rows d)) \<and>
         sorted_wrt (\<lambda>a b. oierdb_score b \<le> oierdb_score a) rows) \<and>
      (\<exists>rows t cs. findOiers_run (Some d) Y (cfg\<lparr>records := Some [no_constraint\<lparr>contest_type := Some []\<rparr>]\<rparr>) =
           Inr (map Row_object rows, t) \<and>
         candidateUids t = Some cs \<and> set cs = uids_where d (\<lambda>row. True) \<and>
         mset rows = mset (filter (\<lambda>oi. uid oi \<in> uids_where d (\<lambda>row. True)) (OIer_rows d)) \<and>
         sorted_wrt (\<lambda>a b. oierdb_score b \<le> oierdb_score a) rows) \<and>
      (\<exists>rows t cs. findOiers_run (Some d) Y (cfg\<lparr>records := Some [no_constraint\<lparr>level_range := Some []\<rparr>]\<rparr>) =
           Inr (map Row_object rows, t) \<and>
         candidateUids t = Some cs \<and> set cs = uids_where d (\<lambda>row. True) \<and>
         mset rows = mset (filter (\<lambda>oi. uid oi \<in> uids_where d (\<lambda>row. True)) (OIer_rows d)) \<and>
         sorted_wrt (\<lambda>a b. oierdb_score b \<le> oierdb_score a) rows))"
proof -
  have 1: "findOiers_run db Y (cfg\<lparr>records := Some (pre @ p\<lparr>province := Some []\<rparr> # post)\<rparr>) =
     findOiers_run db Y (cfg\<lparr>records := Some (pre @ p\<lparr>province := None\<rparr> # post)\<rparr>)"
    by (rule findOiers_run_cong) (simp add: buildWhere_province_empty)
  have 2: "findOiers_run db Y (cfg\<lparr>records := Some (pre @ p\<lparr>contest_type := Some []\<rparr> # post)\<rparr>) =
     findOiers_run db Y (cfg\<lparr>records := Some (pre @ p\<lparr>contest_type := None\<rparr> # post)\<rparr>)"
    by (rule findOiers_run_cong) (simp add: buildWhere_contest_type_empty)
  have 3: "findOiers_run db Y (cfg\<lparr>records := Some (pre @ p\<lparr>level_range := Some []\<rparr> # post)\<rparr>) =
     findOiers_run db Y (cfg\<lparr>records := Some (pre @ p\<lparr>level_range := None\<rparr> # post)\<rparr>)"
    by (rule findOiers_run_cong) (simp add: buildWhere_level_range_empty)
  have 4: "list_conditions lcol (Some []) = []" "list_conditions lcol None = []"
    by (simp_all add: list_conditions_def)
  have 5: "buildWhereClauseAndValues (no_constraint\<lparr>province := Some []\<rparr>) = [Always]"
    "buildWhereClauseAndValues (no_constraint\<lparr>contest_type := Some []\<rparr>) = [Always]"
    "buildWhereClauseAndValues (no_constraint\<lparr>level_range := Some []\<rparr>) = [Always]"
    by (simp_all add: buildWhereClauseAndValues_def where_conditions_def range_conditions_def
          list_conditions_def no_constraint_def)
  note 6 = eval_buildWhere[of _ "p\<lparr>province := Some []\<rparr>", unfolded constraint_matches_province_empty]
    eval_buildWhere[of _ "p\<lparr>contest_type := Some []\<rparr>", unfolded constraint_matches_contest_type_empty]
    eval_buildWhere[of _ "p\<lparr>level_range := Some []\<rparr>", unfolded constraint_matches_level_range_empty]
  have 7: "(enumerationMode s \<longrightarrow> candidateUids s \<noteq> None) \<Longrightarrow>
      \<exists>s' cs'. narrow_step (Some d) s q = Inr s' \<and> candidateUids s' = Some cs' \<and>
         set cs' = candidate_set s \<inter> uids_where d (constraint_matches q)" for q
    by (rule narrow_step_sem)
  note 8 = 7[of "p\<lparr>province := Some []\<rparr>", unfolded constraint_matches_province_empty]
    7[of "p\<lparr>contest_type := Some []\<rparr>", unfolded constraint_matches_contest_type_empty]
    7[of "p\<lparr>level_range := Some []\<rparr>", unfolded constraint_matches_level_range_empty]
  have 9: "oierConditions Y cfg = [] \<Longrightarrow>
     \<exists>rows t cs. findOiers_run (Some d) Y (cfg\<lparr>records := Some [q]\<rparr>) = Inr (map Row_object rows, t) \<and>
           candidateUids t = Some cs \<and> set cs = uids_where d (constraint_matches q) \<and>
           mset rows = mset (filter (\<lambda>oi. uid oi \<in> uids_where d (constraint_matches q)) (OIer_rows d)) \<and>
           sorted_wrt (\<lambda>a b. oierdb_score b \<le> oierdb_score a) rows" for q
    by (rule findOiers_run_single)
  note 10 = 9[of "no_constraint\<lparr>province := Some []\<rparr>", unfolded constraint_matches_only_empty]
    9[of "no_constraint\<lparr>contest_type := Some []\<rparr>", unfolded constraint_matches_only_empty]
    9[of "no_constraint\<lparr>level_range := Some []\<rparr>", unfolded constraint_matches_only_empty]
  show ?thesis
    by (intro conjI impI allI)
      (rule 1 2 3 4 5 6 buildWhere_province_empty buildWhere_contest_type_empty
         buildWhere_level_range_empty | (rule 8 10, assumption))+
qed

theorem empty_set_filter_is_absent_witness:
  "enumerationMode \<lparr>candidateUids = None, enumerationMode = False, lookups = []\<rparr> = False \<and>
   oierConditions 2024 empty_config = [] \<and>
   findOiers_run (Some example_db) 2024
     (empty_config\<lparr>records := Some ([gold_constraint] @ sh_constraint\<lparr>level_range := Some []\<rparr> # [])\<rparr>) =
   findOiers_run (Some example_db) 2024
     (empty_config\<lparr>records := Some ([gold_constraint] @ sh_constraint\<lparr>level_range := None\<rparr> # [])\<rparr>) \<and>
   (\<exists>s' cs'. narrow_step (Some example_db)
        \<lparr>candidateUids = None, enumerationMode = False, lookups = []\<rparr>
        (since_2023_constraint\<lparr>province := Some []\<rparr>) = Inr s' \<and>
      candidateUids s' = Some cs' \<and>
      set cs' = candidate_set \<lparr>candidateUids = None, enumerationMode = False, lookups = []\<rparr> \<inter>
        uids_where example_db
          (\<lambda>row. in_bounds (year_range since_2023_constraint) (num_value Col_c_year row) \<and>
                 in_bounds (score_range since_2023_constraint) (num_value Col_r_score row) \<and>
                 in_bounds (rank_range since_2023_constraint) (num_value Col_r_rank row) \<and>
                 in_set_filter (level_range since_2023_constraint) (list_value Col_r_level row) \<and>
                 in_set_filter (contest_type since_2023_constraint) (list_value Col_c_type row))) \<and>
   (\<exists>rows t cs. findOiers_run (Some example_db) 2024
        (empty_config\<lparr>records := Some [no_constraint\<lparr>province := Some []\<rparr>]\<rparr>) =
        Inr (map Row_object rows, t) \<and>
      candidateUids t = Some cs \<and> set cs = uids_where example_db (\<lambda>row. True) \<and>
      mset rows = mset (filter (\<lambda>oi. uid oi \<in> uids_where example_db (\<lambda>row. True))
                          (OIer_rows example_db)) \<and>
      sorted_wrt (\<lambda>a b. oierdb_score b \<le> oierdb_score a) rows) \<and>
   findOiers (Some example_db) 2024
     (empty_config\<lparr>records := Some [no_constraint\<lparr>province := Some []\<rparr>]\<rparr>) =
     Inr [Row_object \<lparr>uid = 1, name = ''a'', gender = 1, enroll_middle = 2020, oierdb_score = 90,
                      ccf_score = 10, ccf_level = 5\<rparr>,
          Row_object \<lparr>uid = 2, name = ''b'', gender = -1, enroll_middle = 2021, oierdb_score = 80,
                      ccf_score = 20, ccf_level = 6\<rparr>]"
proof -
  let ?i = "\<lparr>candidateUids = None, enumerationMode = False, lookups = []\<rparr>"
  have h0: "enumerationMode ?i = False"
    by simp
  then have h1: "enumerationMode ?i \<longrightarrow> candidateUids ?i \<noteq> None"
    by simp
  have h2: "oierConditions 2024 empty_config = []"
    by (simp add: oierConditions_def enroll_conditions_def grade_conditions_def empty_config_def)
  have h3: "findOiers (Some example_db) 2024
     (empty_config\<lparr>records := Some [no_constraint\<lparr>province := Some []\<rparr>]\<rparr>) =
     Inr [Row_object \<lparr>uid = 1, name = ''a'', gender = 1, enroll_middle = 2020, oierdb_score = 90,
                      ccf_score = 10, ccf_level = 5\<rparr>,
          Row_object \<lparr>uid = 2, name = ''b'', gender = -1, enroll_middle = 2021, oierdb_score = 80,
                      ccf_score = 20, ccf_level = 6\<rparr>]"
    by code_simp
  note T1 = empty_set_filter_is_absent[where p = sh_constraint and db = "Some example_db"
        and Y = 2024 and cfg = empty_config and pre = "[gold_constraint]" and post = "[]"]
  note T2 = empty_set_filter_is_absent[where p = since_2023_constraint and s = ?i
        and d = example_db and Y = 2024 and cfg = empty_config]
  note a = T1[THEN conjunct2, THEN conjunct2, THEN conjunct2, THEN conjunct2, THEN conjunct2, THEN conjunct1]
  note b = T2[THEN conjunct2, THEN conjunct2, THEN conjunct2, THEN conjunct2, THEN conjunct2, THEN conjunct2, THEN conjunct2, THEN conjunct2, THEN conjunct2, THEN conjunct2, THEN conjunct2, THEN conjunct2, THEN conjunct2, THEN conjunct2, THEN conjunct1]
  note c = T2[THEN conjunct2, THEN conjunct2, THEN conjunct2, THEN conjunct2, THEN conjunct2, THEN conjunct2, THEN conjunct2, THEN conjunct2, THEN conjunct2, THEN conjunct2, THEN conjunct2, THEN conjunct2, THEN conjunct2, THEN conjunct2, THEN conjunct2]
  note b1 = conjunct1[OF mp[OF b h1]]
  note c1 = conjunct1[OF mp[OF c h2]]
  show ?thesis
    by (intro conjI) (rule h0 h2 h3 a b1 c1)+
qed

end
